theory Spec2Isabelle
  imports Complex_Main
begin

section \<open>Numeric types and colours (color.hpp)\<close>

text \<open>
  \<open>Float\<close> (float.hpp) is the floating-point type of the program. It is read here as the
  real numbers: infinities and NaN are not represented, and rounding is represented only
  where a result is cast to an integer (see \<open>round_double\<close> below). Divisions by zero,
  which IEEE arithmetic answers with an infinity or NaN, take HOL's value \<open>x / 0 = 0\<close>.
\<close>

type_synonym Float = real

text \<open>The class \<open>color\<close>: the three cells of \<open>m_color\<close>, read by \<open>raw_r\<close>, \<open>raw_g\<close>, \<open>raw_b\<close>.\<close>

datatype color = color (raw_r: Float) (raw_g: Float) (raw_b: Float)

text \<open>
  \<open>static_cast<int>\<close> of a floating-point value drops the fractional part (rounds towards
  zero). Where the result does not fit a 32-bit \<open>int\<close> the conversion is undefined in C++:
  that is the value \<open>None\<close>.
\<close>

definition static_cast_int :: "Float \<Rightarrow> int option" where
  "static_cast_int v =
     (let n = (if 0 \<le> v then \<lfloor>v\<rfloor> else \<lceil>v\<rceil>)
      in if - 2147483648 \<le> n \<and> n \<le> 2147483647 then Some n else None)"

text \<open>
  The one place where the rounding of a floating-point operation decides a result is the
  product \<open>255.0 * m_color[i]\<close> of the channel accessors, which is cast to \<open>int\<close> right
  away. \<open>255.0\<close> is a \<open>double\<close>, so the product is computed in \<open>double\<close> whether \<open>Float\<close> is
  \<open>float\<close> or \<open>double\<close>: it is the exact product rounded to the nearest number with 53
  significant bits, ties going to the even one. \<open>round_half_even\<close> rounds to an integer in
  that way and \<open>round_double\<close> rounds to 53 significant bits. Overflow to infinity and the
  coarser grid of the subnormal numbers are left out: the cast that follows is undefined
  for products as large as the first and gives 0 for products as small as the second.
\<close>

definition round_half_even :: "real \<Rightarrow> int" where
  "round_half_even y =
     (let n = \<lfloor>y\<rfloor>; f = y - of_int n
      in if f < 1/2 then n else if 1/2 < f then n + 1 else if even n then n else n + 1)"

definition round_double :: "real \<Rightarrow> real" where
  "round_double x =
     (if x = 0 then 0
      else let e = \<lfloor>log 2 \<bar>x\<bar>\<rfloor>; q = 2 powr of_int (e - 52)
           in sgn x * (q * of_int (round_half_even (\<bar>x\<bar> / q))))"

text \<open>The channel accessors \<open>color::r\<close>, \<open>color::g\<close>, \<open>color::b\<close>, with their parameter \<open>max\<close> (here \<open>max'\<close>).\<close>

definition color_r :: "color \<Rightarrow> Float \<Rightarrow> int option" where
  "color_r c max' = static_cast_int (round_double (255 * raw_r c))"

definition color_g :: "color \<Rightarrow> Float \<Rightarrow> int option" where
  "color_g c max' = static_cast_int (round_double (255 * raw_g c))"

definition color_b :: "color \<Rightarrow> Float \<Rightarrow> int option" where
  "color_b c max' = static_cast_int (round_double (255 * raw_b c))"

text \<open>\<open>color::operator+=\<close>: the updated left operand.\<close>

definition color_plus_assign :: "color \<Rightarrow> color \<Rightarrow> color" where
  "color_plus_assign a c = color (raw_r a + raw_r c) (raw_g a + raw_g c) (raw_b a + raw_b c)"

text \<open>The private helper \<open>color::clamp\<close>.\<close>

definition clamp :: "Float \<Rightarrow> Float \<Rightarrow> Float \<Rightarrow> Float" where
  "clamp x min' max' = (if x < min' then min' else if x > max' then max' else x)"

text \<open>
  Modelled from the spec: the friend operators \<open>operator+\<close>, \<open>operator*(color, color)\<close> and
  \<open>operator*(Float, color)\<close> are declared in color.hpp and defined in a file that is not
  part of the sources at hand. The spec treats them as the standard component-wise
  operations.
\<close>

definition color_plus :: "color \<Rightarrow> color \<Rightarrow> color" where
  "color_plus c1 c2 = color (raw_r c1 + raw_r c2) (raw_g c1 + raw_g c2) (raw_b c1 + raw_b c2)"

definition color_times :: "color \<Rightarrow> color \<Rightarrow> color" where
  "color_times u v = color (raw_r u * raw_r v) (raw_g u * raw_g v) (raw_b u * raw_b v)"

definition color_scale :: "Float \<Rightarrow> color \<Rightarrow> color" where
  "color_scale t c = color (t * raw_r c) (t * raw_g c) (t * raw_b c)"

text \<open>
  Modelled from the spec: \<open>color::combine\<close> is declared in color.hpp and its body is not
  part of the sources at hand. The spec: divide by the number of samples, gamma-correct by
  the square root, clamp to \<open>[0, 1]\<close>. It is a non-const member whose return value \<open>render\<close>
  discards, so it updates the colour in place; the result here is the updated colour.
\<close>

definition combine :: "color \<Rightarrow> int \<Rightarrow> color" where
  "combine c samplesPerPixel =
     color (clamp (sqrt (raw_r c / real_of_int samplesPerPixel)) 0 1)
           (clamp (sqrt (raw_g c / real_of_int samplesPerPixel)) 0 1)
           (clamp (sqrt (raw_b c / real_of_int samplesPerPixel)) 0 1)"

section \<open>The random source behind \<open>color::randomFloat(min, max)\<close>\<close>

text \<open>
  The function keeps two function-local statics: the distribution, constructed from the
  arguments of the first call and never again, and the generator. The state below holds
  both: \<open>distribution\<close> is \<open>None\<close> until the first call has run and then holds the bounds the
  distribution was built with.

  The standard library supplies \<open>std::nextafter\<close> and the generator; they are parameters:
  \<open>nextafter_inf x\<close> stands for \<open>std::nextafter(x, +infinity)\<close> and \<open>canonical\<close> draws the
  generator's next value in \<open>[0, 1)\<close>. A \<open>uniform_real_distribution\<close> with bounds \<open>a\<close>, \<open>b\<close>
  maps such a draw \<open>u\<close> to \<open>a + u * (b - a)\<close>.
\<close>

record 'g randomFloat_statics =
  distribution :: "(Float \<times> Float) option"
  generator :: 'g

definition randomFloat ::
  "(Float \<Rightarrow> Float) \<Rightarrow> ('g \<Rightarrow> Float \<times> 'g) \<Rightarrow> Float \<Rightarrow> Float \<Rightarrow>
   'g randomFloat_statics \<Rightarrow> Float \<times> 'g randomFloat_statics" where
  "randomFloat nextafter_inf canonical min' max' st =
     (let d = (case distribution st of
                 None \<Rightarrow> (min', nextafter_inf max')
               | Some d0 \<Rightarrow> d0);
          (u, gen') = canonical (generator st)
      in (fst d + u * (snd d - fst d),
          st\<lparr>distribution := Some d, generator := gen'\<rparr>))"

section \<open>Vectors, rays and the scene\<close>

text \<open>
  Modelled from the spec: vec3.hpp, ray.hpp, shared/hitRecord.hpp and hittableList.hpp are
  not part of the sources at hand. A vector has three coordinates, a ray an origin and a
  direction, a hit record the hit point, the surface normal, the ray parameter \<open>t\<close> and a
  reference to the material of the primitive that was hit. \<open>unitVector\<close> normalises: it
  divides a vector by its length.
\<close>

datatype vec3 = vec3 (vec3_x: Float) (vec3_y: Float) (vec3_z: Float)

datatype ray = ray (origin: vec3) (direction: vec3)

datatype 'm HitRecord =
  HitRecord (hit_point: vec3) (hit_normal: vec3) (hit_t: Float) (material: 'm)

definition vec3_length :: "vec3 \<Rightarrow> Float" where
  "vec3_length v = sqrt (vec3_x v * vec3_x v + vec3_y v * vec3_y v + vec3_z v * vec3_z v)"

definition unitVector :: "vec3 \<Rightarrow> vec3" where
  "unitVector v =
     vec3 (vec3_x v / vec3_length v) (vec3_y v / vec3_length v) (vec3_z v / vec3_length v)"

text \<open>
  \<open>HittableObject\<close> is the abstract class with the one virtual member
  \<open>hit(r, tMin, tMax, rec)\<close>; an object is its \<open>hit\<close>, which answers with the record it fills
  in, or with \<open>None\<close> where the C++ returns false.
\<close>

type_synonym 'm HittableObject = "ray \<Rightarrow> Float \<Rightarrow> Float \<Rightarrow> 'm HitRecord option"

type_synonym 'm HittableList = "'m HittableObject list"

text \<open>
  Modelled from the spec: \<open>HittableList::hit\<close> (hittableList.hpp is not part of the sources
  at hand) queries every primitive in turn, with the upper end of the interval narrowed to
  the closest hit found so far, and returns the nearest hit or none.
\<close>

fun hit_scan ::
  "'m HittableList \<Rightarrow> ray \<Rightarrow> Float \<Rightarrow> Float \<Rightarrow> 'm HitRecord option \<Rightarrow> 'm HitRecord option" where
  "hit_scan [] r tMin closestSoFar found = found"
| "hit_scan (ob # obs) r tMin closestSoFar found =
     (case ob r tMin closestSoFar of
        Some rec \<Rightarrow> hit_scan obs r tMin (hit_t rec) (Some rec)
      | None \<Rightarrow> hit_scan obs r tMin closestSoFar found)"

definition HittableList_hit ::
  "'m HittableList \<Rightarrow> ray \<Rightarrow> Float \<Rightarrow> Float \<Rightarrow> 'm HitRecord option" where
  "HittableList_hit world r tMin tMax = hit_scan world r tMin tMax None"

section \<open>The light transport evaluator \<open>rayColor\<close> (main.cxx)\<close>

text \<open>
  What \<open>rayColor\<close> and \<open>render\<close> use and the sources at hand do not define is collected in
  an environment:
  \<^item> \<open>scatter\<close>: the virtual \<open>Material::scatter\<close>, dispatched on the material of the hit
    record. It answers with the attenuation and the scattered ray, or with \<open>None\<close> where the
    C++ returns false, and it may draw random numbers, so it passes the generator on;
  \<^item> \<open>infinity\<close>: the constant of utility.hpp, the upper end of the interval that \<open>rayColor\<close>
    queries. The reals have no infinite element, so it is left open which number it is;
  \<^item> \<open>randomDouble\<close>: the random source of utility.hpp, passing the generator on;
  \<^item> \<open>row_j\<close>: \<open>render\<close> reads a row index \<open>j\<close> that neither \<open>render\<close> nor any header at
    hand declares. It is kept as a parameter that may depend on the worker's counter: the
    value at the time of the read is \<open>row_j E scanLinesLeft\<close>.
\<close>

record ('m, 'g) env =
  scatter :: "'m \<Rightarrow> ray \<Rightarrow> 'm HitRecord \<Rightarrow> 'g \<Rightarrow> (color \<times> ray) option \<times> 'g"
  infinity :: Float
  randomDouble :: "'g \<Rightarrow> Float \<times> 'g"
  row_j :: "int \<Rightarrow> int"

text \<open>The background gradient, the last four lines of \<open>rayColor\<close>.\<close>

definition background :: "ray \<Rightarrow> color" where
  "background r =
     (let unitDirection = unitVector (direction r);
          t = 0.5 * (vec3_y unitDirection + 1.0)
      in color_plus (color_scale (1.0 - t) (color 1.0 1.0 1.0))
                    (color_scale t (color 0.5 0.7 1.0)))"

function rayColor ::
  "('m, 'g) env \<Rightarrow> ray \<Rightarrow> 'm HittableList \<Rightarrow> int \<Rightarrow> 'g \<Rightarrow> color \<times> 'g" where
  "rayColor E r world depth gen =
     (if depth \<le> 0 then (color 0 0 0, gen)
      else
        (case HittableList_hit world r 0.001 (infinity E) of
           Some record \<Rightarrow>
             (case scatter E (material record) r record gen of
                (Some (attenuation, scattered), gen') \<Rightarrow>
                  (case rayColor E scattered world (depth - 1) gen' of
                     (c, gen'') \<Rightarrow> (color_times attenuation c, gen''))
              | (None, gen') \<Rightarrow> (color 0 0 0, gen'))
         | None \<Rightarrow> (background r, gen)))"
  by pat_completeness auto
termination
  by (relation "measure (\<lambda>(E, r, world, depth, gen). nat depth)") auto

declare rayColor.simps [simp del]

section \<open>The scanline scheduler \<open>render\<close> and the worker pool of \<open>main\<close> (main.cxx)\<close>

text \<open>
  What a worker reads and writes outside its own arguments: the random generator, the
  numbers it prints on \<open>std::cerr\<close> after "Scanlines remaining:", and the pixels it hands to
  the three writers \<open>pw.write\<close>, \<open>iw.writeToPNGBuffer\<close> and \<open>iw.writeToJPGBuffer\<close>, oldest
  first.
\<close>

record 'g rstate =
  rng :: 'g
  cerr :: "int list"
  ppm :: "color list"
  png :: "color list"
  jpg :: "color list"

text \<open>
  The camera (camera.hpp is not part of the sources at hand) enters \<open>render\<close> only through
  \<open>camera.getRay(u, v)\<close>: the argument \<open>camera\<close> below is that function.
\<close>

type_synonym Camera = "Float \<Rightarrow> Float \<Rightarrow> ray"

text \<open>The loop over the samples \<open>s\<close> of one pixel: the accumulated colour and the generator.\<close>

function sample_loop ::
  "('m, 'g) env \<Rightarrow> int \<Rightarrow> int \<Rightarrow> int \<Rightarrow> 'm HittableList \<Rightarrow> int \<Rightarrow> Camera \<Rightarrow> int \<Rightarrow>
   int \<Rightarrow> int \<Rightarrow> color \<Rightarrow> 'g \<Rightarrow> color \<times> 'g" where
  "sample_loop E scanLinesLeft imageWidth imageHeight world maxRayDepth camera samplesPerPixel
       i s pixelColor g =
     (if s < samplesPerPixel then
        (case randomDouble E g of (d1, g1) \<Rightarrow>
         case randomDouble E g1 of (d2, g2) \<Rightarrow>
           let u = (real_of_int i + d1) / real_of_int (imageWidth - 1);
               v = (real_of_int (row_j E scanLinesLeft) + d2) / real_of_int (imageHeight - 1);
               r = camera u v
           in case rayColor E r world maxRayDepth g2 of (c, g3) \<Rightarrow>
                sample_loop E scanLinesLeft imageWidth imageHeight world maxRayDepth camera
                  samplesPerPixel i (s + 1) (color_plus_assign pixelColor c) g3)
      else (pixelColor, g))"
  by pat_completeness auto
termination
  by (relation "measure (\<lambda>(E, c, w, h, world, d, cam, spp, i, s, px, g). nat (spp - s))") auto

declare sample_loop.simps [simp del]

text \<open>
  One pixel: the samples are accumulated from \<open>color()\<close>, which is black, \<open>combine\<close> is applied
  and the pixel goes to the three writers.
\<close>

definition render_pixel ::
  "('m, 'g) env \<Rightarrow> int \<Rightarrow> int \<Rightarrow> int \<Rightarrow> 'm HittableList \<Rightarrow> int \<Rightarrow> Camera \<Rightarrow> int \<Rightarrow>
   int \<Rightarrow> 'g rstate \<Rightarrow> 'g rstate" where
  "render_pixel E scanLinesLeft imageWidth imageHeight world maxRayDepth camera samplesPerPixel
       i st =
     (case sample_loop E scanLinesLeft imageWidth imageHeight world maxRayDepth camera
             samplesPerPixel i 0 (color 0 0 0) (rng st) of
        (accumulated, g') \<Rightarrow>
          (let pixelColor = combine accumulated samplesPerPixel
           in st\<lparr>rng := g',
                 ppm := ppm st @ [pixelColor],
                 png := png st @ [pixelColor],
                 jpg := jpg st @ [pixelColor]\<rparr>))"

text \<open>The loop over the columns \<open>i\<close> of one row.\<close>

function pixel_loop ::
  "('m, 'g) env \<Rightarrow> int \<Rightarrow> int \<Rightarrow> int \<Rightarrow> 'm HittableList \<Rightarrow> int \<Rightarrow> Camera \<Rightarrow> int \<Rightarrow>
   int \<Rightarrow> 'g rstate \<Rightarrow> 'g rstate" where
  "pixel_loop E scanLinesLeft imageWidth imageHeight world maxRayDepth camera samplesPerPixel
       i st =
     (if i < imageWidth then
        pixel_loop E scanLinesLeft imageWidth imageHeight world maxRayDepth camera
          samplesPerPixel (i + 1)
          (render_pixel E scanLinesLeft imageWidth imageHeight world maxRayDepth camera
             samplesPerPixel i st)
      else st)"
  by pat_completeness auto
termination
  by (relation "measure (\<lambda>(E, c, w, h, world, d, cam, spp, i, st). nat (w - i))") auto

declare pixel_loop.simps [simp del]

text \<open>
  \<open>render\<close>, as one worker runs it. \<open>scanLinesLeft\<close> is the worker's parameter: the function
  takes the \<open>std::atomic<int>\<close> by value. Each round tests the counter, prints it, decrements
  it and renders one row of pixels.
\<close>

function render ::
  "('m, 'g) env \<Rightarrow> int \<Rightarrow> int \<Rightarrow> int \<Rightarrow> 'm HittableList \<Rightarrow> int \<Rightarrow> Camera \<Rightarrow> int \<Rightarrow>
   'g rstate \<Rightarrow> 'g rstate" where
  "render E scanLinesLeft imageWidth imageHeight world maxRayDepth camera samplesPerPixel st =
     (if scanLinesLeft > 0 then
        render E (scanLinesLeft - 1) imageWidth imageHeight world maxRayDepth camera
          samplesPerPixel
          (pixel_loop E (scanLinesLeft - 1) imageWidth imageHeight world maxRayDepth camera
             samplesPerPixel 0 (st\<lparr>cerr := cerr st @ [scanLinesLeft]\<rparr>))
      else st)"
  by pat_completeness auto
termination
  by (relation "measure (\<lambda>(E, c, w, h, world, d, cam, spp, st). nat c)") auto

declare render.simps [simp del]

text \<open>
  What one worker prints while it counts \<open>c\<close> down: \<open>c\<close>, \<open>c - 1\<close>, and so on down to 1.
\<close>

function countdown :: "int \<Rightarrow> int list" where
  "countdown c = (if c > 0 then c # countdown (c - 1) else [])"
  by pat_completeness auto
termination
  by (relation "measure nat") auto

declare countdown.simps [simp del]

text \<open>
  The loop of \<open>main\<close> that starts the threads: thread \<open>i\<close> is constructed with the arguments
  of \<open>render\<close>, among them \<open>scanLinesLeft\<close>, which \<open>std::thread\<close> copies for the new thread.
  The result lists, in the order of the pool, the counter each worker starts from.
\<close>

function threadPool :: "int \<Rightarrow> int \<Rightarrow> int \<Rightarrow> int list" where
  "threadPool i numThreads scanLinesLeft =
     (if i < numThreads then scanLinesLeft # threadPool (i + 1) numThreads scanLinesLeft
      else [])"
  by pat_completeness auto
termination
  by (relation "measure (\<lambda>(i, n, c). nat (n - i))") auto

declare threadPool.simps [simp del]

text \<open>
  The rendering part of \<open>main\<close>, with the image constants and the number of threads
  (\<open>std::thread::hardware_concurrency()\<close>) as parameters. The counter starts at
  \<open>imageHeight - 1\<close>. The workers share the generator, \<open>std::cerr\<close> and the writers and
  nothing else, each holding its own counter; they are run here one after the other in the
  order of the pool, which is one of the schedules the threads can follow.
\<close>

definition main_render ::
  "('m, 'g) env \<Rightarrow> int \<Rightarrow> int \<Rightarrow> int \<Rightarrow> 'm HittableList \<Rightarrow> int \<Rightarrow> Camera \<Rightarrow> int \<Rightarrow>
   'g rstate \<Rightarrow> 'g rstate" where
  "main_render E numThreads imageWidth imageHeight world maxRayDepth camera samplesPerPixel st =
     foldl (\<lambda>st' scanLinesLeft.
              render E scanLinesLeft imageWidth imageHeight world maxRayDepth camera
                samplesPerPixel st')
       st (threadPool 0 numThreads (imageHeight - 1))"

section \<open>Properties under test, and small scenes to run the functions on\<close>

text \<open>A colour whose three components are non-negative.\<close>

definition nonneg :: "color \<Rightarrow> bool" where
  "nonneg c = (0 \<le> raw_r c \<and> 0 \<le> raw_g c \<and> 0 \<le> raw_b c)"

text \<open>
  Two materials: one scatters every ray straight up from the hit point with attenuation
  \<open>(0.5, 0.5, 0.5)\<close> and takes one random number, the other absorbs every ray.
\<close>

datatype test_material = Diffuse | Absorber

definition test_scatter ::
  "test_material \<Rightarrow> ray \<Rightarrow> test_material HitRecord \<Rightarrow> nat \<Rightarrow> (color \<times> ray) option \<times> nat" where
  "test_scatter m r rec g =
     (case m of
        Diffuse \<Rightarrow> (Some (color (1/2) (1/2) (1/2), ray (hit_point rec) (vec3 0 1 0)), Suc g)
      | Absorber \<Rightarrow> (None, g))"

text \<open>
  An environment over these materials. The generator is a counter of the draws made, every
  draw of \<open>randomDouble\<close> is \<open>0.5\<close>, and the row index \<open>j\<close> is the worker's counter.
\<close>

definition test_env :: "(test_material, nat) env" where
  "test_env = \<lparr>scatter = test_scatter, infinity = 1000000,
                randomDouble = (\<lambda>g. (1/2, Suc g)), row_j = (\<lambda>c. c)\<rparr>"

text \<open>A floor that every downward ray hits at \<open>t = 1\<close>, and no other ray hits.\<close>

definition test_floor :: "test_material \<Rightarrow> test_material HittableObject" where
  "test_floor m r tMin tMax =
     (if vec3_y (direction r) < 0 \<and> tMin < 1 \<and> 1 < tMax
      then Some (HitRecord (origin r) (vec3 0 1 0) 1 m) else None)"

definition ray_down :: ray where
  "ray_down = ray (vec3 0 0 0) (vec3 0 (-1) 0)"

definition ray_up :: ray where
  "ray_up = ray (vec3 0 0 0) (vec3 0 2 0)"

definition ray_forward :: ray where
  "ray_forward = ray (vec3 0 0 0) (vec3 0 0 (-1))"

text \<open>A camera that looks up for \<open>v > 0.5\<close> and down otherwise.\<close>

definition test_camera :: Camera where
  "test_camera u v = (if v > 1/2 then ray_up else ray_down)"

text \<open>The state before anything was drawn, printed or written.\<close>

definition start :: "nat rstate" where
  "start = \<lparr>rng = 0, cerr = [], ppm = [], png = [], jpg = []\<rparr>"

text \<open>
  For \<open>randomFloat\<close>: a generator whose every draw is \<open>0.5\<close>, and the successor of a
  single-precision number in \<open>[1, 2)\<close>, which lies \<open>2\<^sup>-\<^sup>2\<^sup>3\<close> above it.
\<close>

definition test_canonical :: "nat \<Rightarrow> Float \<times> nat" where
  "test_canonical g = (1/2, Suc g)"

definition test_nextafter :: "Float \<Rightarrow> Float" where
  "test_nextafter x = x + 1 / 8388608"

definition fresh_statics :: "nat randomFloat_statics" where
  "fresh_statics = \<lparr>distribution = None, generator = 0\<rparr>"

section \<open>Facts about the small scenes\<close>

lemma test_env_sel:
  "scatter test_env = test_scatter" "infinity test_env = 1000000"
  "randomDouble test_env = (\<lambda>g. (1/2, Suc g))" "row_j test_env = (\<lambda>c. c)"
  by (simp_all add: test_env_def)

lemma hit_floor_down:
  "tMin < 1 \<Longrightarrow> 1 < tMax \<Longrightarrow>
   HittableList_hit [test_floor m] ray_down tMin tMax
     = Some (HitRecord (vec3 0 0 0) (vec3 0 1 0) 1 m)"
  by (simp add: HittableList_hit_def test_floor_def ray_down_def)

lemma hit_floor_up:
  "HittableList_hit [test_floor m] (ray p (vec3 0 1 0)) tMin tMax = None"
  by (simp add: HittableList_hit_def test_floor_def)

lemma HittableList_hit_empty: "HittableList_hit [] r tMin tMax = None"
  by (simp add: HittableList_hit_def)

lemma background_up: "background (ray p (vec3 0 1 0)) = color (1/2) (7/10) 1"
  by (simp add: background_def unitVector_def vec3_length_def color_plus_def color_scale_def)

lemma rayColor_up_1:
  "0 < d \<Longrightarrow>
   rayColor test_env (ray p (vec3 0 1 0)) [test_floor m] d g = (color (1/2) (7/10) 1, g)"
  by (subst rayColor.simps) (simp add: hit_floor_up background_up)

lemma rayColor_down_diffuse:
  "rayColor test_env ray_down [test_floor Diffuse] 2 g = (color (1/4) (7/20) (1/2), Suc g)"
  by (subst rayColor.simps)
     (simp add: hit_floor_down rayColor_up_1 test_env_sel test_scatter_def color_times_def)

lemma rayColor_down_absorber:
  "rayColor test_env ray_down [test_floor Absorber] 2 g = (color 0 0 0, g)"
  by (subst rayColor.simps) (simp add: hit_floor_down test_env_sel test_scatter_def)

lemma sample_loop_test:
  "sample_loop test_env 0 2 3 [test_floor Diffuse] 2 test_camera 4 0 0 (color 0 0 0) 0
     = (color 1 (7/5) 2, 12)"
  by (simp add: sample_loop.simps test_env_sel test_camera_def rayColor_down_diffuse
        color_plus_assign_def)

section \<open>The light transport evaluator\<close>

lemma rayColor_miss:
  "0 < depth \<Longrightarrow> HittableList_hit world r (1/1000) (infinity E) = None \<Longrightarrow>
   rayColor E r world depth g = (background r, g)"
  by (subst rayColor.simps) simp

text \<open>
  C4. With a bounce budget of zero or less \<open>rayColor\<close> returns exactly black, whatever the
  ray and the scene; the generator is left as it was.
\<close>

theorem rayColor_budget_exhausted:
  "depth \<le> 0 \<Longrightarrow> rayColor E r world depth g = (color 0 0 0, g)"
  by (simp add: rayColor.simps)

theorem rayColor_budget_exhausted_witness:
  "(0::int) \<le> 0 \<and>
   rayColor test_env ray_down [test_floor Diffuse] 0 (0::nat) = (color 0 0 0, 0) \<and>
   rayColor test_env ray_up [] (-3) (5::nat) = (color 0 0 0, 5)"
  using rayColor_budget_exhausted [of 0 test_env ray_down "[test_floor Diffuse]" 0]
        rayColor_budget_exhausted [of "-3" test_env ray_up "[]" 5]
  by simp

text \<open>
  C3. With a positive bounce budget \<open>rayColor\<close> asks the scene for the closest hit in the
  interval from the positive tolerance 0.001 to \<open>infinity\<close>. On a hit it asks the material
  of the hit record to scatter: if that succeeds the result is the attenuation multiplied
  component-wise by \<open>rayColor\<close> of the scattered ray with the budget reduced by one, and if
  it fails the result is black.
\<close>

theorem rayColor_hit:
  "0 < depth \<Longrightarrow>
   (0::real) < 0.001 \<and>
   rayColor E r world depth g =
     (case HittableList_hit world r 0.001 (infinity E) of
        Some record \<Rightarrow>
          (case scatter E (material record) r record g of
             (Some (attenuation, scattered), g') \<Rightarrow>
               (color_times attenuation (fst (rayColor E scattered world (depth - 1) g')),
                snd (rayColor E scattered world (depth - 1) g'))
           | (None, g') \<Rightarrow> (color 0 0 0, g'))
      | None \<Rightarrow> (background r, g))"
  by (subst rayColor.simps) (simp split: option.splits prod.splits)

theorem rayColor_hit_witness:
  "(0::int) < 2 \<and>
   rayColor test_env ray_down [test_floor Diffuse] 2 0 = (color (1/4) (7/20) (1/2), 1) \<and>
   rayColor test_env ray_down [test_floor Absorber] 2 0 = (color 0 0 0, 0)"
  using rayColor_hit [of 2 test_env ray_down "[test_floor Diffuse]" 0]
        rayColor_hit [of 2 test_env ray_down "[test_floor Absorber]" 0]
  by (simp add: hit_floor_down rayColor_up_1 test_env_sel test_scatter_def color_times_def)

text \<open>
  C5. With a positive bounce budget, a ray that hits nothing gets the background gradient
  \<open>(1 - t) * (1, 1, 1) + t * (0.5, 0.7, 1.0)\<close> with \<open>t = 0.5 * (y + 1)\<close>, \<open>y\<close> the vertical
  component of the normalised direction. Every ray misses the empty scene, so there the
  result is the same. A ray straight up gets \<open>(0.5, 0.7, 1.0)\<close> and a ray whose direction
  has the vertical component 0 gets \<open>(0.75, 0.85, 1.0)\<close>.
\<close>

theorem rayColor_background:
  "0 < depth \<Longrightarrow> HittableList_hit world r 0.001 (infinity E) = None \<Longrightarrow>
     rayColor E r world depth g =
       (let t = 0.5 * (vec3_y (unitVector (direction r)) + 1)
        in (color ((1 - t) * 1 + t * 0.5) ((1 - t) * 1 + t * 0.7) ((1 - t) * 1 + t * 1.0), g))
   \<and> rayColor E r [] depth g = rayColor E r world depth g
   \<and> (\<forall>k>0. direction r = vec3 0 k 0 \<longrightarrow> rayColor E r world depth g = (color 0.5 0.7 1.0, g))
   \<and> (vec3_y (direction r) = 0 \<longrightarrow> rayColor E r world depth g = (color 0.75 0.85 1.0, g))"
  by (simp add: rayColor_miss HittableList_hit_empty background_def Let_def color_plus_def
        color_scale_def unitVector_def vec3_length_def)

theorem rayColor_background_witness:
  "(0::int) < 1 \<and>
   HittableList_hit [test_floor Diffuse] ray_up 0.001 (infinity test_env) = None \<and>
   rayColor test_env ray_up [test_floor Diffuse] 1 0 = (color 0.5 0.7 1.0, 0) \<and>
   rayColor test_env ray_forward [] 1 0 = (color 0.75 0.85 1.0, 0)"
proof -
  have d: "(0::int) < 1" by simp
  have m1: "HittableList_hit [test_floor Diffuse] ray_up 0.001 (infinity test_env) = None"
    by (simp add: HittableList_hit_def test_floor_def ray_up_def)
  have m2: "HittableList_hit [] ray_forward 0.001 (infinity test_env) = None"
    by (simp add: HittableList_hit_def)
  have up: "direction ray_up = vec3 0 2 0" by (simp add: ray_up_def)
  have fw: "vec3_y (direction ray_forward) = 0" by (simp add: ray_forward_def)
  have "\<forall>k>0. direction ray_up = vec3 0 k 0 \<longrightarrow>
          rayColor test_env ray_up [test_floor Diffuse] 1 0 = (color 0.5 0.7 1.0, 0)"
    using rayColor_background [OF d m1, of 0] by blast
  with up have a: "rayColor test_env ray_up [test_floor Diffuse] 1 0 = (color 0.5 0.7 1.0, 0)"
    by simp
  have "vec3_y (direction ray_forward) = 0 \<longrightarrow>
          rayColor test_env ray_forward [] 1 0 = (color 0.75 0.85 1.0, 0)"
    using rayColor_background [OF d m2, of 0] by blast
  with fw have b: "rayColor test_env ray_forward [] 1 0 = (color 0.75 0.85 1.0, 0)"
    by simp
  from d m1 a b show ?thesis by simp
qed

section \<open>Non-negative colours\<close>

lemma unit_y_bound: "\<bar>vec3_y (unitVector v)\<bar> \<le> 1"
proof -
  have "\<bar>vec3_y v\<bar> \<le> vec3_length v"
    unfolding vec3_length_def
    by (rule real_le_rsqrt) (simp add: power2_eq_square)
  moreover have "0 \<le> vec3_length v"
    by (simp add: vec3_length_def)
  ultimately show ?thesis
    by (cases "vec3_length v = 0") (simp_all add: unitVector_def divide_le_eq_1)
qed

lemma background_nonneg: "nonneg (background r)"
proof -
  have "\<bar>vec3_y (unitVector (direction r))\<bar> \<le> 1" by (rule unit_y_bound)
  then show ?thesis
    by (simp add: background_def Let_def nonneg_def color_plus_def color_scale_def abs_le_iff)
qed

lemma color_times_nonneg: "nonneg a \<Longrightarrow> nonneg c \<Longrightarrow> nonneg (color_times a c)"
  by (simp add: nonneg_def color_times_def)

lemma color_plus_assign_nonneg: "nonneg a \<Longrightarrow> nonneg c \<Longrightarrow> nonneg (color_plus_assign a c)"
  by (simp add: nonneg_def color_plus_assign_def)

lemma rayColor_nonneg_aux:
  assumes "\<forall>m r rec g att sc g'. scatter E m r rec g = (Some (att, sc), g') \<longrightarrow> nonneg att"
  shows "nonneg (fst (rayColor E r world depth g))"
  using assms
proof (induction E r world depth g rule: rayColor.induct)
  case (1 E r world depth gen)
  show ?case
  proof (cases "depth \<le> 0")
    case True
    then show ?thesis by (subst rayColor.simps) (simp add: nonneg_def)
  next
    case False
    show ?thesis
    proof (cases "HittableList_hit world r 0.001 (infinity E)")
      case None
      with False show ?thesis by (subst rayColor.simps) (simp add: background_nonneg)
    next
      case (Some rec)
      note hit = this
      show ?thesis
      proof (cases "scatter E (material rec) r rec gen")
        case (Pair res gen')
        show ?thesis
        proof (cases res)
          case None
          with False hit Pair show ?thesis by (subst rayColor.simps) (simp add: nonneg_def)
        next
          case (Some as)
          obtain att sc where as: "as = (att, sc)" by (cases as)
          have att: "nonneg att" using "1.prems" Pair Some as by blast
          have "nonneg (fst (rayColor E sc world (depth - 1) gen'))"
            using "1.IH" [OF False hit Pair [symmetric] Some as [symmetric]] "1.prems"
            by blast
          with att False hit Pair Some as
          show ?thesis
            by (subst rayColor.simps) (auto simp: color_times_nonneg split: prod.splits)
        qed
      qed
    qed
  qed
qed

lemma sample_loop_nonneg:
  "\<forall>m r rec g att sc g'. scatter E m r rec g = (Some (att, sc), g') \<longrightarrow> nonneg att \<Longrightarrow>
   nonneg acc \<Longrightarrow> nonneg (fst (sample_loop E c w h world d cam spp i s acc g))"
proof (induction E c w h world d cam spp i s acc g rule: sample_loop.induct)
  case (1 E c w h world d cam spp i s acc g)
  note att = "1.prems"(1) and acc = "1.prems"(2)
  show ?case
  proof (cases "s < spp")
    case False
    with acc show ?thesis by (subst sample_loop.simps) simp
  next
    case True
    obtain d1 g1 where r1: "randomDouble E g = (d1, g1)" by (cases "randomDouble E g")
    obtain d2 g2 where r2: "randomDouble E g1 = (d2, g2)" by (cases "randomDouble E g1")
    define u where "u = (real_of_int i + d1) / real_of_int (w - 1)"
    define v where "v = (real_of_int (row_j E c) + d2) / real_of_int (h - 1)"
    obtain col g3 where rc: "rayColor E (cam u v) world d g2 = (col, g3)"
      by (cases "rayColor E (cam u v) world d g2")
    have "nonneg col"
      using rc rayColor_nonneg_aux [OF att, of "cam u v" world d g2] by simp
    with acc have acc': "nonneg (color_plus_assign acc col)"
      by (rule color_plus_assign_nonneg)
    have "nonneg (fst (sample_loop E c w h world d cam spp i (s + 1)
                         (color_plus_assign acc col) g3))"
      using "1.IH" [OF True r1 [symmetric] r2 [symmetric] u_def v_def refl rc [symmetric]
                      att acc'] .
    with True r1 r2 rc show ?thesis
      by (subst sample_loop.simps) (simp add: u_def v_def)
  qed
qed

text \<open>
  C6. Where every attenuation that the materials return has non-negative components, so
  has every colour that \<open>rayColor\<close> returns, for every ray, scene and bounce budget. The
  accumulated colour of a pixel therefore stays non-negative throughout the sampling: it
  starts from black, each \<open>+=\<close> of a \<open>rayColor\<close> result keeps it non-negative, and the loop
  over the samples, entered at any sample with a non-negative sum, ends with one.
\<close>

theorem rayColor_nonneg:
  assumes "\<forall>m r rec g att sc g'. scatter E m r rec g = (Some (att, sc), g') \<longrightarrow> nonneg att"
  shows "nonneg (fst (rayColor E r world depth g)) \<and>
         nonneg (color 0 0 0) \<and>
         (\<forall>acc. nonneg acc \<longrightarrow>
            nonneg (color_plus_assign acc (fst (rayColor E r world depth g)))) \<and>
         (\<forall>s acc. nonneg acc \<longrightarrow>
            nonneg (fst (sample_loop E scanLinesLeft imageWidth imageHeight world maxRayDepth
                           camera samplesPerPixel i s acc g)))"
proof -
  have a: "nonneg (fst (rayColor E r world depth g))"
    by (rule rayColor_nonneg_aux [OF assms])
  have z: "nonneg (color 0 0 0)" by (simp add: nonneg_def)
  from a z show ?thesis
    by (simp add: color_plus_assign_nonneg sample_loop_nonneg [OF assms])
qed

theorem rayColor_nonneg_witness:
  "scatter test_env Diffuse ray_down (HitRecord (vec3 0 0 0) (vec3 0 1 0) 1 Diffuse) 0
     = (Some (color (1/2) (1/2) (1/2), ray (vec3 0 0 0) (vec3 0 1 0)), 1) \<and>
   nonneg (color (1/2) (1/2) (1/2)) \<and>
   fst (rayColor test_env ray_down [test_floor Diffuse] 2 0) = color (1/4) (7/20) (1/2) \<and>
   nonneg (fst (rayColor test_env ray_down [test_floor Diffuse] 2 0)) \<and>
   fst (sample_loop test_env 0 2 3 [test_floor Diffuse] 2 test_camera 4 0 0 (color 0 0 0) 0)
     = color 1 (7/5) 2 \<and>
   nonneg (fst (sample_loop test_env 0 2 3 [test_floor Diffuse] 2 test_camera 4 0 0
                  (color 0 0 0) 0))"
proof -
  have h: "\<forall>m r rec g att sc g'.
             scatter test_env m r rec g = (Some (att, sc), g') \<longrightarrow> nonneg att"
    by (auto simp: test_env_sel test_scatter_def nonneg_def split: test_material.splits)
  have v: "fst (rayColor test_env ray_down [test_floor Diffuse] 2 0) = color (1/4) (7/20) (1/2)"
    by (simp add: rayColor_down_diffuse)
  have w: "fst (sample_loop test_env 0 2 3 [test_floor Diffuse] 2 test_camera 4 0 0
                  (color 0 0 0) 0) = color 1 (7/5) 2"
    by (simp add: sample_loop_test)
  have z: "nonneg (color 0 0 0)" by (simp add: nonneg_def)
  have "nonneg (fst (rayColor test_env ray_down [test_floor Diffuse] 2 0)) \<and>
        nonneg (fst (sample_loop test_env 0 2 3 [test_floor Diffuse] 2 test_camera 4 0 0
                       (color 0 0 0) 0))"
    using rayColor_nonneg [OF h, of ray_down "[test_floor Diffuse]" 2 0 0 2 3 2 test_camera 4 0]
      z by blast
  moreover have "scatter test_env Diffuse ray_down (HitRecord (vec3 0 0 0) (vec3 0 1 0) 1 Diffuse) 0
     = (Some (color (1/2) (1/2) (1/2), ray (vec3 0 0 0) (vec3 0 1 0)), 1)"
    by (simp add: test_env_sel test_scatter_def)
  moreover have "nonneg (color (1/2) (1/2) (1/2))"
    by (simp add: nonneg_def)
  ultimately show ?thesis using v w by blast
qed

section \<open>The finished pixel\<close>

lemma render_pixel_writers:
  "ppm (render_pixel E c w h world d cam spp i st) =
     ppm st @ [combine (fst (sample_loop E c w h world d cam spp i 0 (color 0 0 0) (rng st))) spp]"
  "png (render_pixel E c w h world d cam spp i st) =
     png st @ [combine (fst (sample_loop E c w h world d cam spp i 0 (color 0 0 0) (rng st))) spp]"
  "jpg (render_pixel E c w h world d cam spp i st) =
     jpg st @ [combine (fst (sample_loop E c w h world d cam spp i 0 (color 0 0 0) (rng st))) spp]"
  "cerr (render_pixel E c w h world d cam spp i st) = cerr st"
  by (simp_all add: render_pixel_def Let_def split: prod.splits)

lemma combine_range:
  "0 \<le> raw_r (combine c n) \<and> raw_r (combine c n) \<le> 1 \<and>
   0 \<le> raw_g (combine c n) \<and> raw_g (combine c n) \<le> 1 \<and>
   0 \<le> raw_b (combine c n) \<and> raw_b (combine c n) \<le> 1"
  by (simp add: combine_def clamp_def)

lemma sample_loop_sum:
  "\<exists>cs. length cs = nat (spp - s) \<and>
        fst (sample_loop E c w h world d cam spp i s acc g) = foldl color_plus_assign acc cs \<and>
        (\<forall>k<length cs. \<exists>d1 d2 g'.
           cs ! k = fst (rayColor E
                           (cam ((real_of_int i + d1) / real_of_int (w - 1))
                                ((real_of_int (row_j E c) + d2) / real_of_int (h - 1)))
                           world d g'))"
proof (induction E c w h world d cam spp i s acc g rule: sample_loop.induct)
  case (1 E c w h world d cam spp i s acc g)
  show ?case
  proof (cases "s < spp")
    case False
    then show ?thesis by (subst sample_loop.simps) simp
  next
    case True
    obtain d1 g1 where r1: "randomDouble E g = (d1, g1)" by (cases "randomDouble E g")
    obtain d2 g2 where r2: "randomDouble E g1 = (d2, g2)" by (cases "randomDouble E g1")
    define u where "u = (real_of_int i + d1) / real_of_int (w - 1)"
    define v where "v = (real_of_int (row_j E c) + d2) / real_of_int (h - 1)"
    obtain col g3 where rc: "rayColor E (cam u v) world d g2 = (col, g3)"
      by (cases "rayColor E (cam u v) world d g2")
    have unf: "sample_loop E c w h world d cam spp i s acc g
                 = sample_loop E c w h world d cam spp i (s + 1) (color_plus_assign acc col) g3"
      using True r1 r2 rc by (subst sample_loop.simps) (simp add: u_def v_def)
    from "1.IH" [OF True r1 [symmetric] r2 [symmetric] u_def v_def refl rc [symmetric]]
    obtain cs where
      cs: "length cs = nat (spp - (s + 1))"
          "fst (sample_loop E c w h world d cam spp i (s + 1) (color_plus_assign acc col) g3)
             = foldl color_plus_assign (color_plus_assign acc col) cs"
          "\<forall>k<length cs. \<exists>d1 d2 g'.
             cs ! k = fst (rayColor E
                             (cam ((real_of_int i + d1) / real_of_int (w - 1))
                                  ((real_of_int (row_j E c) + d2) / real_of_int (h - 1)))
                             world d g')"
      by blast
    have len: "length (col # cs) = nat (spp - s)" using True cs(1) by simp
    have col: "col = fst (rayColor E
                             (cam ((real_of_int i + d1) / real_of_int (w - 1))
                                  ((real_of_int (row_j E c) + d2) / real_of_int (h - 1)))
                             world d g2)"
      using rc by (simp add: u_def v_def)
    have nth: "\<exists>d1 d2 g'.
             (col # cs) ! k = fst (rayColor E
                             (cam ((real_of_int i + d1) / real_of_int (w - 1))
                                  ((real_of_int (row_j E c) + d2) / real_of_int (h - 1)))
                             world d g')" if "k < length (col # cs)" for k
    proof (cases k)
      case 0
      with col show ?thesis by auto
    next
      case (Suc k')
      with that have "k' < length cs" by simp
      with cs(3) Suc show ?thesis by simp
    qed
    show ?thesis
      apply (rule exI [where x = "col # cs"])
      using len nth by (simp add: unf cs(2))
  qed
qed

lemma pixel_loop_out:
  "\<exists>ps. ppm (pixel_loop E c w h world d cam spp i st) = ppm st @ ps \<and>
        png (pixel_loop E c w h world d cam spp i st) = png st @ ps \<and>
        jpg (pixel_loop E c w h world d cam spp i st) = jpg st @ ps \<and>
        length ps = nat (w - i) \<and>
        (\<forall>k<length ps. \<exists>g.
           ps ! k = combine (fst (sample_loop E c w h world d cam spp (i + int k) 0
                                     (color 0 0 0) g)) spp)"
proof (induction E c w h world d cam spp i st rule: pixel_loop.induct)
  case (1 E c w h world d cam spp i st)
  show ?case
  proof (cases "i < w")
    case False
    then show ?thesis by (subst (1 2 3) pixel_loop.simps) simp
  next
    case True
    define st1 where "st1 = render_pixel E c w h world d cam spp i st"
    define p0 where
      "p0 = combine (fst (sample_loop E c w h world d cam spp i 0 (color 0 0 0) (rng st))) spp"
    have st1: "ppm st1 = ppm st @ [p0]" "png st1 = png st @ [p0]" "jpg st1 = jpg st @ [p0]"
      by (simp_all add: st1_def p0_def render_pixel_writers)
    from "1.IH" [OF True] obtain ps where
      ps: "ppm (pixel_loop E c w h world d cam spp (i + 1) st1) = ppm st1 @ ps"
          "png (pixel_loop E c w h world d cam spp (i + 1) st1) = png st1 @ ps"
          "jpg (pixel_loop E c w h world d cam spp (i + 1) st1) = jpg st1 @ ps"
          "length ps = nat (w - (i + 1))"
          "\<forall>k<length ps. \<exists>g.
             ps ! k = combine (fst (sample_loop E c w h world d cam spp (i + 1 + int k) 0
                                       (color 0 0 0) g)) spp"
      unfolding st1_def by blast
    have unf: "pixel_loop E c w h world d cam spp i st
                 = pixel_loop E c w h world d cam spp (i + 1) st1"
      using True by (subst pixel_loop.simps) (simp add: st1_def)
    have len: "length (p0 # ps) = nat (w - i)"
      using True ps(4) by simp
    have nth: "\<exists>g. (p0 # ps) ! k = combine (fst (sample_loop E c w h world d cam spp (i + int k) 0
                                       (color 0 0 0) g)) spp"
      if "k < length (p0 # ps)" for k
    proof (cases k)
      case 0
      then show ?thesis by (auto simp: p0_def)
    next
      case (Suc k')
      with that have "k' < length ps" by simp
      with ps(5) obtain g where
        "ps ! k' = combine (fst (sample_loop E c w h world d cam spp (i + 1 + int k') 0
                                   (color 0 0 0) g)) spp"
        by blast
      moreover have "i + 1 + int k' = i + int k" using Suc by simp
      ultimately show ?thesis using Suc by auto
    qed
    show ?thesis
      apply (rule exI [where x = "p0 # ps"])
      using len nth by (simp add: unf ps st1)
  qed
qed

lemma render_out:
  "\<exists>ps. ppm (render E c w h world d cam spp st) = ppm st @ ps \<and>
        png (render E c w h world d cam spp st) = png st @ ps \<and>
        jpg (render E c w h world d cam spp st) = jpg st @ ps \<and>
        length ps = nat c * nat w \<and>
        (\<forall>k<length ps. \<exists>g.
           ps ! k = combine (fst (sample_loop E (c - 1 - int (k div nat w)) w h world d cam spp
                                     (int (k mod nat w)) 0 (color 0 0 0) g)) spp)"
proof (induction E c w h world d cam spp st rule: render.induct)
  case (1 E c w h world d cam spp st)
  show ?case
  proof (cases "c > 0")
    case False
    then show ?thesis by (subst (1 2 3) render.simps) simp
  next
    case True
    define st0 where "st0 = st\<lparr>cerr := cerr st @ [c]\<rparr>"
    define st1 where "st1 = pixel_loop E (c - 1) w h world d cam spp 0 st0"
    have unf: "render E c w h world d cam spp st = render E (c - 1) w h world d cam spp st1"
      using True by (subst render.simps) (simp add: st1_def st0_def)
    from pixel_loop_out [of E "c - 1" w h world d cam spp 0 st0] obtain row where
      row: "ppm st1 = ppm st @ row" "png st1 = png st @ row" "jpg st1 = jpg st @ row"
           "length row = nat w"
           "\<forall>k<length row. \<exists>g.
              row ! k = combine (fst (sample_loop E (c - 1) w h world d cam spp (int k) 0
                                        (color 0 0 0) g)) spp"
      unfolding st1_def by (auto simp: st0_def)
    from "1.IH" [OF True] obtain ps where
      ps: "ppm (render E (c - 1) w h world d cam spp st1) = ppm st1 @ ps"
          "png (render E (c - 1) w h world d cam spp st1) = png st1 @ ps"
          "jpg (render E (c - 1) w h world d cam spp st1) = jpg st1 @ ps"
          "length ps = nat (c - 1) * nat w"
          "\<forall>k<length ps. \<exists>g.
             ps ! k = combine (fst (sample_loop E (c - 1 - 1 - int (k div nat w)) w h world d
                                       cam spp (int (k mod nat w)) 0 (color 0 0 0) g)) spp"
      unfolding st1_def st0_def by blast
    have len: "length (row @ ps) = nat c * nat w"
    proof -
      have "nat c = Suc (nat (c - 1))" using True by simp
      then show ?thesis using row(4) ps(4) by simp
    qed
    have nth: "\<exists>g. (row @ ps) ! k
                 = combine (fst (sample_loop E (c - 1 - int (k div nat w)) w h world d cam spp
                                   (int (k mod nat w)) 0 (color 0 0 0) g)) spp"
      if k: "k < length (row @ ps)" for k
    proof (cases "k < nat w")
      case True
      then have "k div nat w = 0" "k mod nat w = k" by simp_all
      moreover from True row(4) row(5) obtain g where
        "row ! k = combine (fst (sample_loop E (c - 1) w h world d cam spp (int k) 0
                                   (color 0 0 0) g)) spp"
        by auto
      ultimately show ?thesis using True row(4) by (auto simp: nth_append)
    next
      case False
      define k' where "k' = k - nat w"
      have kk: "k = k' + nat w" using False by (simp add: k'_def)
      have w0: "0 < nat w" using k row(4) ps(4) False by (cases "nat w") auto
      have k'l: "k' < length ps" using k row(4) kk by simp
      with ps(5) obtain g where
        g: "ps ! k' = combine (fst (sample_loop E (c - 1 - 1 - int (k' div nat w)) w h world d
                                      cam spp (int (k' mod nat w)) 0 (color 0 0 0) g)) spp"
        by blast
      have dm: "k div nat w = Suc (k' div nat w)" "k mod nat w = k' mod nat w"
        using w0 by (simp_all add: kk)
      have eq1: "c - 1 - int (k div nat w) = c - 1 - 1 - int (k' div nat w)"
        using dm(1) by simp
      have eq2: "int (k mod nat w) = int (k' mod nat w)"
        using dm(2) by simp
      have nk: "(row @ ps) ! k = ps ! k'"
        using False row(4) by (simp add: nth_append k'_def)
      have "(row @ ps) ! k
              = combine (fst (sample_loop E (c - 1 - int (k div nat w)) w h world d cam spp
                                (int (k mod nat w)) 0 (color 0 0 0) g)) spp"
        unfolding eq1 eq2 nk by (rule g)
      then show ?thesis by blast
    qed
    show ?thesis
      apply (rule exI [where x = "row @ ps"])
      using len nth by (simp add: unf ps row)
  qed
qed


lemma sample_loop_test_row0:
  "sample_loop test_env 0 2 3 [test_floor Diffuse] 2 test_camera 4 i 0 (color 0 0 0) g
     = (color 1 (7/5) 2, g + 12)"
  by (simp add: sample_loop.simps test_env_sel test_camera_def rayColor_down_diffuse
        color_plus_assign_def)

lemma render_test:
  "render test_env 1 2 3 [test_floor Diffuse] 2 test_camera 4 start
     = \<lparr>rng = 24, cerr = [1],
        ppm = [combine (color 1 (7/5) 2) 4, combine (color 1 (7/5) 2) 4],
        png = [combine (color 1 (7/5) 2) 4, combine (color 1 (7/5) 2) 4],
        jpg = [combine (color 1 (7/5) 2) 4, combine (color 1 (7/5) 2) 4]\<rparr>"
  by (simp add: render.simps pixel_loop.simps render_pixel_def sample_loop_test_row0 start_def
        Let_def)

text \<open>
  C7. For a sample count of at least one, \<open>combine\<close> divides each component by the count,
  takes the square root and clamps the result to \<open>[0, 1]\<close>. \<open>render\<close> applies it once per
  pixel, after the samples of that pixel and before the pixel is written: what a run of
  \<open>render\<close> adds to each of the three writers is the same list of pixels, one for each
  column of each row the worker takes, in the order of the rows taken and from left to
  right within a row; the pixel at each place is \<open>combine\<close> of the sum that the loop over
  the samples accumulates from black for that row and column, and so its components lie
  in \<open>[0, 1]\<close>. That sum is made with \<open>+=\<close> of exactly \<open>samplesPerPixel\<close> colours, each the
  \<open>rayColor\<close> of a camera ray through the pixel's column and the row index \<open>j\<close>, both moved
  by a random offset.
\<close>

theorem render_emits_combined:
  "1 \<le> samplesPerPixel \<Longrightarrow>
   combine c samplesPerPixel =
     color (clamp (sqrt (raw_r c / real_of_int samplesPerPixel)) 0 1)
           (clamp (sqrt (raw_g c / real_of_int samplesPerPixel)) 0 1)
           (clamp (sqrt (raw_b c / real_of_int samplesPerPixel)) 0 1) \<and>
   (\<exists>ps.
      ppm (render E scanLinesLeft imageWidth imageHeight world maxRayDepth camera
             samplesPerPixel st) = ppm st @ ps \<and>
      png (render E scanLinesLeft imageWidth imageHeight world maxRayDepth camera
             samplesPerPixel st) = png st @ ps \<and>
      jpg (render E scanLinesLeft imageWidth imageHeight world maxRayDepth camera
             samplesPerPixel st) = jpg st @ ps \<and>
      length ps = nat scanLinesLeft * nat imageWidth \<and>
      (\<forall>k<length ps. \<exists>g.
         ps ! k = combine
                    (fst (sample_loop E (scanLinesLeft - 1 - int (k div nat imageWidth))
                            imageWidth imageHeight world maxRayDepth camera samplesPerPixel
                            (int (k mod nat imageWidth)) 0 (color 0 0 0) g))
                    samplesPerPixel) \<and>
      (\<forall>k<length ps.
         0 \<le> raw_r (ps ! k) \<and> raw_r (ps ! k) \<le> 1 \<and>
         0 \<le> raw_g (ps ! k) \<and> raw_g (ps ! k) \<le> 1 \<and>
         0 \<le> raw_b (ps ! k) \<and> raw_b (ps ! k) \<le> 1)) \<and>
   (\<exists>cs.
      length cs = nat samplesPerPixel \<and>
      fst (sample_loop E row imageWidth imageHeight world maxRayDepth camera samplesPerPixel
             i 0 (color 0 0 0) g) = foldl color_plus_assign (color 0 0 0) cs \<and>
      (\<forall>k<length cs. \<exists>d1 d2 g'.
         cs ! k = fst (rayColor E
                         (camera ((real_of_int i + d1) / real_of_int (imageWidth - 1))
                                 ((real_of_int (row_j E row) + d2)
                                    / real_of_int (imageHeight - 1)))
                         world maxRayDepth g')))"
proof -
  from render_out [of E scanLinesLeft imageWidth imageHeight world maxRayDepth camera
         samplesPerPixel st]
  obtain ps where
    ps: "ppm (render E scanLinesLeft imageWidth imageHeight world maxRayDepth camera
                samplesPerPixel st) = ppm st @ ps"
        "png (render E scanLinesLeft imageWidth imageHeight world maxRayDepth camera
                samplesPerPixel st) = png st @ ps"
        "jpg (render E scanLinesLeft imageWidth imageHeight world maxRayDepth camera
                samplesPerPixel st) = jpg st @ ps"
        "length ps = nat scanLinesLeft * nat imageWidth"
        "\<forall>k<length ps. \<exists>g.
           ps ! k = combine
                      (fst (sample_loop E (scanLinesLeft - 1 - int (k div nat imageWidth))
                              imageWidth imageHeight world maxRayDepth camera samplesPerPixel
                              (int (k mod nat imageWidth)) 0 (color 0 0 0) g))
                      samplesPerPixel"
    by blast
  have rg: "0 \<le> raw_r (ps ! k) \<and> raw_r (ps ! k) \<le> 1 \<and>
            0 \<le> raw_g (ps ! k) \<and> raw_g (ps ! k) \<le> 1 \<and>
            0 \<le> raw_b (ps ! k) \<and> raw_b (ps ! k) \<le> 1" if "k < length ps" for k
  proof -
    from ps(5) that obtain a where "ps ! k = combine a samplesPerPixel" by blast
    then show ?thesis by (simp only: combine_range)
  qed
  have cmb: "combine c samplesPerPixel =
     color (clamp (sqrt (raw_r c / real_of_int samplesPerPixel)) 0 1)
           (clamp (sqrt (raw_g c / real_of_int samplesPerPixel)) 0 1)
           (clamp (sqrt (raw_b c / real_of_int samplesPerPixel)) 0 1)"
    by (simp add: combine_def)
  have written: "\<exists>ps.
      ppm (render E scanLinesLeft imageWidth imageHeight world maxRayDepth camera
             samplesPerPixel st) = ppm st @ ps \<and>
      png (render E scanLinesLeft imageWidth imageHeight world maxRayDepth camera
             samplesPerPixel st) = png st @ ps \<and>
      jpg (render E scanLinesLeft imageWidth imageHeight world maxRayDepth camera
             samplesPerPixel st) = jpg st @ ps \<and>
      length ps = nat scanLinesLeft * nat imageWidth \<and>
      (\<forall>k<length ps. \<exists>g.
         ps ! k = combine
                    (fst (sample_loop E (scanLinesLeft - 1 - int (k div nat imageWidth))
                            imageWidth imageHeight world maxRayDepth camera samplesPerPixel
                            (int (k mod nat imageWidth)) 0 (color 0 0 0) g))
                    samplesPerPixel) \<and>
      (\<forall>k<length ps.
         0 \<le> raw_r (ps ! k) \<and> raw_r (ps ! k) \<le> 1 \<and>
         0 \<le> raw_g (ps ! k) \<and> raw_g (ps ! k) \<le> 1 \<and>
         0 \<le> raw_b (ps ! k) \<and> raw_b (ps ! k) \<le> 1)"
    using ps rg by blast
  have sampled: "\<exists>cs.
      length cs = nat samplesPerPixel \<and>
      fst (sample_loop E row imageWidth imageHeight world maxRayDepth camera samplesPerPixel
             i 0 (color 0 0 0) g) = foldl color_plus_assign (color 0 0 0) cs \<and>
      (\<forall>k<length cs. \<exists>d1 d2 g'.
         cs ! k = fst (rayColor E
                         (camera ((real_of_int i + d1) / real_of_int (imageWidth - 1))
                                 ((real_of_int (row_j E row) + d2)
                                    / real_of_int (imageHeight - 1)))
                         world maxRayDepth g'))"
    using sample_loop_sum [of samplesPerPixel 0 E row imageWidth imageHeight world maxRayDepth
            camera i "color 0 0 0" g]
    by simp
  from cmb written sampled show ?thesis by (intro conjI)
qed

theorem render_emits_combined_witness:
  "(1::int) \<le> 4 \<and>
   combine (color 1 4 16) 4 = color (1/2) 1 1 \<and>
   render test_env 1 2 3 [test_floor Diffuse] 2 test_camera 4 start
     = \<lparr>rng = 24, cerr = [1],
        ppm = [combine (color 1 (7/5) 2) 4, combine (color 1 (7/5) 2) 4],
        png = [combine (color 1 (7/5) 2) 4, combine (color 1 (7/5) 2) 4],
        jpg = [combine (color 1 (7/5) 2) 4, combine (color 1 (7/5) 2) 4]\<rparr> \<and>
   fst (sample_loop test_env 0 2 3 [test_floor Diffuse] 2 test_camera 4 1 0 (color 0 0 0) 12)
     = color 1 (7/5) 2 \<and>
   raw_r (combine (color 1 (7/5) 2) 4) = 1/2 \<and>
   (\<exists>ps. ppm (render test_env 1 2 3 [test_floor Diffuse] 2 test_camera 4 start) = ps \<and>
         png (render test_env 1 2 3 [test_floor Diffuse] 2 test_camera 4 start) = ps \<and>
         jpg (render test_env 1 2 3 [test_floor Diffuse] 2 test_camera 4 start) = ps \<and>
         length ps = 2)"
proof -
  have n: "(1::int) \<le> 4" by simp
  have s: "ppm start = []" "png start = []" "jpg start = []"
    by (simp_all add: start_def)
  have c: "combine (color 1 4 16) 4 = color (1/2) 1 1"
    by (simp add: combine_def clamp_def real_sqrt_divide)
  have r: "raw_r (combine (color 1 (7/5) 2) 4) = 1/2"
    by (simp add: combine_def clamp_def real_sqrt_divide)
  have "\<exists>ps. ppm (render test_env 1 2 3 [test_floor Diffuse] 2 test_camera 4 start) = ps \<and>
         png (render test_env 1 2 3 [test_floor Diffuse] 2 test_camera 4 start) = ps \<and>
         jpg (render test_env 1 2 3 [test_floor Diffuse] 2 test_camera 4 start) = ps \<and>
         length ps = 2"
    using render_emits_combined [OF n, of "color 1 4 16" test_env 1 2 3 "[test_floor Diffuse]" 2
            test_camera start]
    unfolding s append_Nil by auto
  with n c r show ?thesis
    by (simp add: render_test sample_loop_test_row0)
qed

section \<open>The channel accessors\<close>

subsection \<open>Rounding to 53 significant bits\<close>

lemma rhe_int: "round_half_even (of_int n) = n"
  by (simp add: round_half_even_def)

lemma rhe_ge: "of_int n \<le> y \<Longrightarrow> n \<le> round_half_even y"
proof -
  assume "of_int n \<le> y"
  then have "n \<le> \<lfloor>y\<rfloor>" by (simp add: le_floor_iff)
  then show ?thesis by (auto simp: round_half_even_def Let_def)
qed

lemma floor_log2:
  "0 < x \<Longrightarrow> 2 powr of_int e \<le> x \<Longrightarrow> x < 2 powr of_int (e + 1) \<Longrightarrow> \<lfloor>log 2 x\<rfloor> = e"
  by (simp add: floor_eq_iff le_log_iff log_less_iff)

lemma log2_bounds:
  assumes "0 < x"
  shows "2 powr of_int \<lfloor>log 2 x\<rfloor> \<le> x" "x < 2 powr of_int (\<lfloor>log 2 x\<rfloor> + 1)"
proof -
  have "(of_int \<lfloor>log 2 x\<rfloor> \<le> log 2 x) = (2 powr of_int \<lfloor>log 2 x\<rfloor> \<le> x)"
    by (rule le_log_iff) (use assms in simp_all)
  then show "2 powr of_int \<lfloor>log 2 x\<rfloor> \<le> x" by simp
  have l: "log 2 x < of_int (\<lfloor>log 2 x\<rfloor> + 1)" by linarith
  have "(log 2 x < of_int (\<lfloor>log 2 x\<rfloor> + 1)) = (x < 2 powr of_int (\<lfloor>log 2 x\<rfloor> + 1))"
    by (rule log_less_iff) (use assms in simp_all)
  with l show "x < 2 powr of_int (\<lfloor>log 2 x\<rfloor> + 1)" by (simp only:)
qed

lemma round_double_pos:
  "0 < x \<Longrightarrow>
   round_double x =
     2 powr of_int (\<lfloor>log 2 x\<rfloor> - 52)
       * of_int (round_half_even (x / 2 powr of_int (\<lfloor>log 2 x\<rfloor> - 52)))"
  by (simp add: round_double_def Let_def)

lemma round_double_neg: "round_double (- x) = - round_double x"
  by (simp add: round_double_def Let_def sgn_minus)

text \<open>A number on the grid of the rounding is not crossed by it.\<close>

lemma grid_le:
  assumes "0 < q" "a = q * of_int n" "a \<le> x"
  shows "a \<le> q * of_int (round_half_even (x / q))"
proof -
  from assms have "of_int n \<le> x / q" by (simp add: pos_le_divide_eq mult.commute)
  then have "n \<le> round_half_even (x / q)" by (rule rhe_ge)
  then have "(of_int n :: real) \<le> of_int (round_half_even (x / q))" by simp
  with assms show ?thesis by simp
qed

lemma round_double_nonneg: "0 \<le> x \<Longrightarrow> 0 \<le> round_double x"
proof (cases "x = 0")
  case True
  then show ?thesis by (simp add: round_double_def)
next
  case False
  assume "0 \<le> x"
  with False have x: "0 < x" by simp
  have "(0::real) \<le> 2 powr of_int (\<lfloor>log 2 x\<rfloor> - 52)
          * of_int (round_half_even (x / 2 powr of_int (\<lfloor>log 2 x\<rfloor> - 52)))"
    by (rule grid_le [where n = 0]) (use x in simp_all)
  with x show ?thesis by (simp only: round_double_pos)
qed

lemma round_double_nonpos: "x \<le> 0 \<Longrightarrow> round_double x \<le> 0"
  using round_double_nonneg [of "- x"] by (simp add: round_double_neg)

lemma round_double_ge_255:
  assumes "255 \<le> x"
  shows "255 \<le> round_double x"
proof -
  from assms have x: "0 < x" by simp
  define e where "e = \<lfloor>log 2 x\<rfloor>"
  define q where "q = (2::real) powr of_int (e - 52)"
  have q: "0 < q" by (simp add: q_def)
  have lo: "2 powr of_int e \<le> x" and hi: "x < 2 powr of_int (e + 1)"
    using log2_bounds [OF x] by (simp_all add: e_def)
  have "(2::real) powr 7 \<le> 255" by simp
  have e7: "7 \<le> e"
  proof (rule ccontr)
    assume "\<not> 7 \<le> e"
    then have "e + 1 \<le> 7" by simp
    then have "(2::real) powr of_int (e + 1) \<le> 2 powr 7"
      by (intro powr_mono) simp_all
    with hi assms show False by simp
  qed
  have "255 \<le> q * of_int (round_half_even (x / q))"
  proof (cases "e \<le> 52")
    case True
    define k where "k = nat (52 - e)"
    have "of_int (e - 52) = - real k" using True by (simp add: k_def)
    then have qk: "q = 1 / 2 ^ k"
      by (simp add: q_def powr_minus_divide powr_realpow)
    show ?thesis
      by (rule grid_le [where n = "255 * 2 ^ k"]) (use q qk assms in simp_all)
  next
    case False
    then have "53 \<le> e" by simp
    then have "(2::real) powr 53 \<le> 2 powr of_int e"
      by (intro powr_mono) simp_all
    then have big: "(255::real) \<le> 2 powr of_int e" by simp
    have "of_int (e - 52) + 52 = (of_int e :: real)" by simp
    then have "(2::real) powr of_int e = 2 powr (of_int (e - 52) + 52)" by (simp only:)
    also have "\<dots> = q * 2 powr 52" unfolding q_def by (rule powr_add)
    also have "(2::real) powr 52 = of_int (2 ^ 52)" by simp
    finally have g: "2 powr of_int e = q * of_int (2 ^ 52)" .
    have "2 powr of_int e \<le> q * of_int (round_half_even (x / q))"
      by (rule grid_le [OF q g lo])
    with big show ?thesis by simp
  qed
  with x show ?thesis by (simp only: round_double_pos e_def [symmetric] q_def [symmetric])
qed

text \<open>A number with at most 53 significant bits is its own rounding.\<close>

lemma round_double_exact:
  assumes "0 < a" "2 powr of_int e \<le> a" "a < 2 powr of_int (e + 1)"
    and "a / 2 powr of_int (e - 52) = of_int n"
  shows "round_double a = a" "round_double (- a) = - a"
proof -
  have e: "\<lfloor>log 2 a\<rfloor> = e" using assms(1-3) by (rule floor_log2)
  have "round_double a
          = 2 powr of_int (e - 52) * of_int (round_half_even (a / 2 powr of_int (e - 52)))"
    using round_double_pos [OF assms(1)] by (simp only: e)
  also have "\<dots> = 2 powr of_int (e - 52) * (a / 2 powr of_int (e - 52))"
    by (simp only: assms(4) rhe_int)
  also have "\<dots> = a" by simp
  finally show "round_double a = a" .
  then show "round_double (- a) = - a" by (simp add: round_double_neg)
qed

lemma rd1: "round_double (65535/256) = 65535/256"
  by (rule round_double_exact(1) [where e = 7 and n = "65535 * 2 ^ 37"])
     (simp_all add: powr_minus_divide)

lemma rd2: "round_double (- (255/256)) = - (255/256)"
  by (rule round_double_exact(2) [where e = "-1" and n = "255 * 2 ^ 45"])
     (simp_all add: powr_minus_divide)

lemma rd3: "round_double 510 = 510"
  by (rule round_double_exact(1) [where e = 8 and n = "510 * 2 ^ 44"])
     (simp_all add: powr_minus_divide)

lemma rd4: "round_double (- 255) = - 255"
  by (rule round_double_exact(2) [where e = 7 and n = "255 * 2 ^ 45"])
     (simp_all add: powr_minus_divide)

lemma rd5: "round_double (255/2) = 255/2"
  by (rule round_double_exact(1) [where e = 6 and n = "255 * 2 ^ 45"])
     (simp_all add: powr_minus_divide)


subsection \<open>The cast\<close>

lemma cast_between_255_256:
  "255 \<le> x \<Longrightarrow> x < 256 \<Longrightarrow> static_cast_int x = Some 255"
proof -
  assume a: "255 \<le> x" "x < 256"
  then have "\<lfloor>x\<rfloor> = 255" by (simp add: floor_eq_iff)
  with a show ?thesis by (simp add: static_cast_int_def)
qed

lemma cast_from_255:
  "255 \<le> x \<Longrightarrow> x < 2147483648 \<Longrightarrow> \<exists>n. static_cast_int x = Some n \<and> 255 \<le> n"
proof -
  assume a: "255 \<le> x" "x < 2147483648"
  then have "255 \<le> \<lfloor>x\<rfloor>" "\<lfloor>x\<rfloor> < 2147483648"
    by (simp_all add: le_floor_iff floor_less_iff)
  with a show ?thesis by (simp add: static_cast_int_def)
qed

lemma cast_small_negative:
  "- 1 < x \<Longrightarrow> x \<le> 0 \<Longrightarrow> static_cast_int x = Some 0"
proof -
  assume a: "- 1 < x" "x \<le> 0"
  then have "\<lceil>x\<rceil> = 0" by (simp add: ceiling_eq_iff)
  moreover have "x = 0 \<Longrightarrow> \<lfloor>x\<rfloor> = 0" by simp
  ultimately show ?thesis using a by (auto simp: static_cast_int_def)
qed

lemma cast_nonpos:
  "x \<le> 0 \<Longrightarrow> - 2147483649 < x \<Longrightarrow> \<exists>n. static_cast_int x = Some n \<and> n \<le> 0"
proof -
  assume a: "x \<le> 0" "- 2147483649 < x"
  then have c: "\<lceil>x\<rceil> \<le> 0" "- 2147483648 \<le> \<lceil>x\<rceil>"
    by (simp_all add: ceiling_le_iff le_ceiling_iff)
  show ?thesis
  proof (cases "x = 0")
    case True
    then show ?thesis by (simp add: static_cast_int_def)
  next
    case False
    with a c show ?thesis by (simp add: static_cast_int_def)
  qed
qed

lemma cast_int: "- 2147483648 \<le> n \<Longrightarrow> n \<le> 2147483647 \<Longrightarrow> static_cast_int (of_int n) = Some n"
  by (simp add: static_cast_int_def)

lemma rd6: "round_double (72057594037927935 / 281474976710656) = 256"
proof -
  let ?x = "72057594037927935 / 281474976710656 :: real"
  have e: "\<lfloor>log 2 ?x\<rfloor> = 7"
    by (rule floor_log2) simp_all
  have q: "(2::real) powr of_int (7 - 52) = 1 / 2 ^ 45"
    by (simp add: powr_minus_divide)
  have "?x / (1 / 2 ^ 45) = 72057594037927935 / 8" by simp
  moreover have "round_half_even (72057594037927935 / 8) = 9007199254740992"
    by (simp add: round_half_even_def Let_def)
  ultimately have r: "round_half_even (?x / (1 / 2 ^ 45)) = 9007199254740992"
    by (simp only:)
  have "round_double ?x = 1 / 2 ^ 45 * of_int (round_half_even (?x / (1 / 2 ^ 45)))"
    using round_double_pos [of ?x] by (simp only: e q)
  then show ?thesis by (simp only: r) simp
qed

text \<open>
  The product is rounded before it is cast: the \<open>double\<close> nearest to 256/255 lies below
  256/255, its exact product with 255 lies below 256, and the rounded product is 256.
\<close>

lemma color_r_rounds_before_the_cast:
  "282578800148737 / 281474976710656 < (256 / 255 :: real) \<and>
   color_r (color (282578800148737 / 281474976710656) 0 0) 255 = Some 256"
proof -
  have "255 * (282578800148737 / 281474976710656 :: real)
          = 72057594037927935 / 281474976710656" by simp
  then have "round_double (255 * (282578800148737 / 281474976710656)) = 256"
    by (simp only: rd6)
  then show ?thesis
    by (simp add: color_r_def static_cast_int_def)
qed


text \<open>
  C9, as stated: the accessors ignore \<open>max\<close> and do not clamp, so that a component above 1
  maps above 255 and a negative component maps to a negative integer. The cast rounds
  towards zero, and so it does not: the component 257/256 maps to 255, and the component
  -1/256 maps to 0. Both components and both products, 65535/256 and -255/256, are
  floating-point numbers of either precision, so nothing is rounded before the cast.
\<close>

theorem color_channels_counterexample:
  "1 < raw_r (color (257/256) 0 (- (1/256))) \<and>
   color_r (color (257/256) 0 (- (1/256))) 255 = Some 255 \<and>
   raw_b (color (257/256) 0 (- (1/256))) < 0 \<and>
   color_b (color (257/256) 0 (- (1/256))) 255 = Some 0"
proof -
  have a: "static_cast_int (round_double (65535/256)) = Some 255"
    unfolding rd1 by (rule cast_between_255_256) simp_all
  have b: "static_cast_int (round_double (- (255/256))) = Some 0"
    unfolding rd2 by (rule cast_small_negative) simp_all
  from a b show ?thesis by (simp add: color_r_def color_b_def)
qed

text \<open>
  C9, amended. For every colour and every argument \<open>max\<close>, each accessor returns
  \<open>static_cast<int>(255.0 * component)\<close>: \<open>max\<close> is ignored and nothing is clamped, so a
  component above 1 maps to 255 or above and a negative component maps to 0 or below,
  as long as the product is within the range of \<open>int\<close>, where the cast is defined.
\<close>

theorem color_channels:
  "color_r c max' = static_cast_int (round_double (255 * raw_r c)) \<and>
   color_g c max' = static_cast_int (round_double (255 * raw_g c)) \<and>
   color_b c max' = static_cast_int (round_double (255 * raw_b c)) \<and>
   (1 < v \<and> round_double (255 * v) < 2147483648 \<longrightarrow>
      (\<exists>n. static_cast_int (round_double (255 * v)) = Some n \<and> 255 \<le> n)) \<and>
   (v < 0 \<and> - 2147483649 < round_double (255 * v) \<longrightarrow>
      (\<exists>n. static_cast_int (round_double (255 * v)) = Some n \<and> n \<le> 0))"
proof -
  have a: "\<exists>n. static_cast_int (round_double (255 * v)) = Some n \<and> 255 \<le> n"
    if "1 < v" "round_double (255 * v) < 2147483648"
  proof -
    from that(1) have "255 \<le> 255 * v" by simp
    then have "255 \<le> round_double (255 * v)" by (rule round_double_ge_255)
    then show ?thesis using that(2) by (rule cast_from_255)
  qed
  have b: "\<exists>n. static_cast_int (round_double (255 * v)) = Some n \<and> n \<le> 0"
    if "v < 0" "- 2147483649 < round_double (255 * v)"
  proof -
    from that(1) have "255 * v \<le> 0" by simp
    then have "round_double (255 * v) \<le> 0" by (rule round_double_nonpos)
    then show ?thesis using that(2) by (rule cast_nonpos)
  qed
  from a b show ?thesis
    by (simp add: color_r_def color_g_def color_b_def)
qed

theorem color_channels_witness:
  "color_r (color 2 (- 1) (1/2)) 255 = Some 510 \<and>
   color_g (color 2 (- 1) (1/2)) 1 = Some (- 255) \<and>
   color_b (color 2 (- 1) (1/2)) 0 = Some 127 \<and>
   (1 < (257/256::real) \<and> round_double (255 * (257/256)) < 2147483648) \<and>
   (\<exists>n. static_cast_int (round_double (255 * (257/256))) = Some n \<and> 255 \<le> n) \<and>
   ((- (1/256)::real) < 0 \<and> - 2147483649 < round_double (255 * (- (1/256)))) \<and>
   (\<exists>n. static_cast_int (round_double (255 * (- (1/256)))) = Some n \<and> n \<le> 0)"
proof -
  let ?c = "color 2 (- 1) (1/2)"
  have p1: "255 * (257/256::real) = 65535/256" by simp
  have p2: "255 * (- (1/256)::real) = - (255/256)" by simp
  have h1: "1 < (257/256::real) \<and> round_double (255 * (257/256)) < 2147483648"
    unfolding p1 rd1 by simp
  have h2: "(- (1/256)::real) < 0 \<and> - 2147483649 < round_double (255 * (- (1/256)))"
    unfolding p2 rd2 by simp
  have e1: "static_cast_int (round_double (255 * 2)) = Some 510"
    using rd3 cast_int [of 510] by simp
  have e2: "static_cast_int (round_double (255 * (- 1))) = Some (- 255)"
    using rd4 cast_int [of "- 255"] by simp
  have "\<lfloor>255 / 2 :: real\<rfloor> = 127" by (simp add: floor_eq_iff)
  then have "static_cast_int (255 / 2) = Some 127"
    by (simp add: static_cast_int_def)
  moreover have "255 * (1/2::real) = 255 / 2" by simp
  ultimately have e3: "static_cast_int (round_double (255 * (1/2))) = Some 127"
    by (simp only: rd5)
  have r: "color_r ?c 255 = Some 510"
    using color_channels [of ?c 255 2] e1 by simp
  have g: "color_g ?c 1 = Some (- 255)"
    using color_channels [of ?c 1 2] e2 by simp
  have b: "color_b ?c 0 = Some 127"
    using color_channels [of ?c 0 2] e3 by simp
  have v1: "\<exists>n. static_cast_int (round_double (255 * (257/256))) = Some n \<and> 255 \<le> n"
    using color_channels [of ?c 255 "257/256"] h1 by blast
  have v2: "\<exists>n. static_cast_int (round_double (255 * (- (1/256)))) = Some n \<and> n \<le> 0"
    using color_channels [of ?c 255 "- (1/256)"] h2 by blast
  from r g b h1 v1 h2 v2 show ?thesis by blast
qed


section \<open>The bounds of \<open>randomFloat\<close>\<close>

text \<open>
  C10 says that every call of \<open>randomFloat(min, max)\<close> returns a value in \<open>[min, max]\<close> for
  the bounds of that call. The code at two calls in a row from the fresh statics, the first
  with the bounds \<open>min1\<close>, \<open>max1\<close> and the second with \<open>min2\<close>, \<open>max2\<close>: the second value is
  drawn between the bounds of the first call, and \<open>min2\<close> and \<open>max2\<close> play no part in it.
  After \<open>randomFloat(0, 1)\<close>, with a generator that draws 0.5, the call \<open>randomFloat(5, 6)\<close>
  returns a value just above 0.5, which is not in \<open>[5, 6]\<close>.
\<close>

theorem randomFloat_keeps_first_bounds:
  "fst (randomFloat nextafter_inf canonical min2 max2
          (snd (randomFloat nextafter_inf canonical min1 max1
                  \<lparr>distribution = None, generator = g\<rparr>)))
     = min1 + fst (canonical (snd (canonical g))) * (nextafter_inf max1 - min1) \<and>
   fst (randomFloat test_nextafter test_canonical 5 6
          (snd (randomFloat test_nextafter test_canonical 0 1 fresh_statics)))
     = 8388609 / 16777216"
  by (auto simp: randomFloat_def Let_def fresh_statics_def test_canonical_def
        test_nextafter_def split: prod.splits)

section \<open>The rows a worker takes\<close>

lemma pixel_loop_cerr:
  "cerr (pixel_loop E c w h world d cam spp i st) = cerr st"
proof (induction E c w h world d cam spp i st rule: pixel_loop.induct)
  case (1 E c w h world d cam spp i st)
  show ?case
  proof (cases "i < w")
    case True
    with "1.IH" show ?thesis
      by (subst pixel_loop.simps) (simp add: render_pixel_writers)
  next
    case False
    then show ?thesis by (subst pixel_loop.simps) simp
  qed
qed

lemma pixel_loop_ppm_length:
  "length (ppm (pixel_loop E c w h world d cam spp i st)) = length (ppm st) + nat (w - i)"
proof (induction E c w h world d cam spp i st rule: pixel_loop.induct)
  case (1 E c w h world d cam spp i st)
  show ?case
  proof (cases "i < w")
    case True
    then have "nat (w - i) = Suc (nat (w - (i + 1)))" by simp
    with True "1.IH" show ?thesis
      by (subst pixel_loop.simps) (simp add: render_pixel_writers)
  next
    case False
    then show ?thesis by (subst pixel_loop.simps) simp
  qed
qed

lemma render_cerr:
  "cerr (render E c w h world d cam spp st) = cerr st @ countdown c"
proof (induction E c w h world d cam spp st rule: render.induct)
  case (1 E c w h world d cam spp st)
  show ?case
  proof (cases "c > 0")
    case True
    with "1.IH" show ?thesis
      by (subst render.simps, subst countdown.simps) (simp add: pixel_loop_cerr)
  next
    case False
    then show ?thesis by (subst render.simps, subst countdown.simps) simp
  qed
qed

lemma render_ppm_length:
  "length (ppm (render E c w h world d cam spp st)) = length (ppm st) + nat c * nat w"
proof (induction E c w h world d cam spp st rule: render.induct)
  case (1 E c w h world d cam spp st)
  show ?case
  proof (cases "c > 0")
    case True
    then have "nat c = Suc (nat (c - 1))" by simp
    with True "1.IH" show ?thesis
      by (subst render.simps) (simp add: pixel_loop_ppm_length)
  next
    case False
    then show ?thesis by (subst render.simps) simp
  qed
qed

lemma threadPool_replicate:
  "threadPool i numThreads c = replicate (nat (numThreads - i)) c"
proof (induction i numThreads c rule: threadPool.induct)
  case (1 i numThreads c)
  show ?case
  proof (cases "i < numThreads")
    case True
    then have "nat (numThreads - i) = Suc (nat (numThreads - (i + 1)))" by simp
    with True "1.IH" show ?thesis
      by (subst threadPool.simps) simp
  next
    case False
    then show ?thesis by (subst threadPool.simps) simp
  qed
qed

lemma countdown_2: "countdown 2 = [2, 1]"
  by (simp add: countdown.simps)

text \<open>
  C1 says that every image row is taken by exactly one worker, exactly once, which needs
  one counter shared by all workers. The code with two workers: \<open>main\<close> hands each worker
  its own copy of the counter, both copies start at \<open>imageHeight - 1\<close>, and each worker
  counts its copy down on its own. Both workers print the same numbers and both render a
  row for each of them, \<open>2 * (imageHeight - 1)\<close> rows of pixels in all. For an image of three
  rows both print "2" and "1", and four rows are written; for the image of \<open>main\<close>, 1920 by
  1080, the two workers write 2158 rows.
\<close>

theorem workers_take_the_same_rows:
  "threadPool 0 2 (imageHeight - 1) = [imageHeight - 1, imageHeight - 1] \<and>
   cerr (main_render E 2 imageWidth imageHeight world maxRayDepth camera samplesPerPixel st)
     = cerr st @ countdown (imageHeight - 1) @ countdown (imageHeight - 1) \<and>
   length (ppm (main_render E 2 imageWidth imageHeight world maxRayDepth camera
                  samplesPerPixel st))
     = length (ppm st) + 2 * (nat (imageHeight - 1) * nat imageWidth) \<and>
   cerr (main_render E 2 imageWidth 3 world maxRayDepth camera samplesPerPixel st)
     = cerr st @ [2, 1, 2, 1] \<and>
   length (ppm (main_render E 2 1920 1080 world maxRayDepth camera samplesPerPixel st))
     = length (ppm st) + 2158 * 1920"
proof -
  have tp: "threadPool 0 2 c = [c, c]" for c
    by (simp add: threadPool_replicate numeral_2_eq_2)
  show ?thesis
    by (simp add: main_render_def tp render_cerr render_ppm_length countdown_2)
qed

text \<open>
  C2 says that a complete run covers every row from 0 to \<open>imageHeight - 1\<close>. The code with
  one worker: the counter starts at \<open>imageHeight - 1\<close> and the loop stops at 0, so the worker
  renders \<open>imageHeight - 1\<close> rows, one fewer than the image has, whatever the row index \<open>j\<close>
  is. For an image of 2 by 2 pixels it prints "1" and writes 2 pixels, not 4; for the
  image of \<open>main\<close>, 1920 by 1080, it writes 1079 rows.
\<close>

theorem one_row_is_never_rendered:
  "cerr (main_render E 1 imageWidth imageHeight world maxRayDepth camera samplesPerPixel st)
     = cerr st @ countdown (imageHeight - 1) \<and>
   length (ppm (main_render E 1 imageWidth imageHeight world maxRayDepth camera
                  samplesPerPixel st))
     = length (ppm st) + nat (imageHeight - 1) * nat imageWidth \<and>
   cerr (main_render test_env 1 2 2 [test_floor Diffuse] 2 test_camera 1 start) = [1] \<and>
   length (ppm (main_render test_env 1 2 2 [test_floor Diffuse] 2 test_camera 1 start)) = 2 \<and>
   length (ppm (main_render E 1 1920 1080 world maxRayDepth camera samplesPerPixel st))
     = length (ppm st) + 1079 * 1920"
proof -
  have tp: "threadPool 0 1 c = [c]" for c
    by (simp add: threadPool_replicate)
  have c1: "countdown 1 = [1]"
    by (simp add: countdown.simps)
  show ?thesis
    by (simp add: main_render_def tp render_cerr render_ppm_length start_def c1)
qed

text \<open>
  C8, as stated: the pool is clamped to at least one worker, so that a worker runs even
  when the platform reports a hardware concurrency of zero. The code has no such clamp:
  with zero threads the pool is empty and the state after rendering is the state before,
  with nothing printed and no pixel written.
\<close>

theorem pool_size_counterexample:
  "threadPool 0 0 (2 - 1) = [] \<and>
   main_render test_env 0 2 2 [test_floor Diffuse] 2 test_camera 1 start = start"
  by (simp add: threadPool_replicate main_render_def)

text \<open>
  C8, amended. The pool has exactly as many workers as the platform reports, with no lower
  bound: \<open>main\<close> starts \<open>numThreads\<close> workers, and when the platform reports zero, no worker
  runs and nothing is rendered.
\<close>

theorem pool_size:
  "length (threadPool 0 numThreads scanLinesLeft) = nat numThreads \<and>
   main_render E 0 imageWidth imageHeight world maxRayDepth camera samplesPerPixel st = st"
  by (simp add: threadPool_replicate main_render_def)

end
